theory Spec2Isabelle
  imports Complex_Main "HOL-Library.Word"
begin

unbundle bit_operations_syntax

section \<open>JavaScript numbers and strings as the stores use them\<close>

text \<open>
  The stores are TypeScript. A \<^verbatim>\<open>number\<close> that holds an integer is an \<^typ>\<open>int\<close> here. The
  operators \<^verbatim>\<open><<\<close>, \<^verbatim>\<open>>>\<close>, \<^verbatim>\<open>|\<close> and \<^verbatim>\<open>&\<close> first convert both operands with ToInt32
  (reduction modulo \<open>2^32\<close>, read as two's complement), work on the 32 bits, and give a
  signed 32-bit result back. \<^verbatim>\<open>>>\<close> is the arithmetic shift. Shift counts are taken
  modulo 32.
\<close>

definition toInt32 :: "int \<Rightarrow> 32 word" where
  "toInt32 x = word_of_int x"

definition js_shl :: "int \<Rightarrow> nat \<Rightarrow> int" where
  "js_shl x n = sint (push_bit (n mod 32) (toInt32 x))"

definition js_sar :: "int \<Rightarrow> nat \<Rightarrow> int" where
  "js_sar x n = sint (signed_drop_bit (n mod 32) (toInt32 x))"

definition js_or :: "int \<Rightarrow> int \<Rightarrow> int" where
  "js_or x y = sint (toInt32 x OR toInt32 y)"

definition js_and :: "int \<Rightarrow> int \<Rightarrow> int" where
  "js_and x y = sint (toInt32 x AND toInt32 y)"

text \<open>
  A CAN payload is a \<^verbatim>\<open>number[]\<close> of byte values. Reading \<^verbatim>\<open>data[i]\<close> past the end
  does not raise in JavaScript: it gives \<^verbatim>\<open>undefined\<close>, which is \<open>None\<close> here. As an
  operand of a bitwise operator \<^verbatim>\<open>undefined\<close> becomes \<open>NaN\<close> and then \<open>0\<close>.
\<close>

type_synonym byte = "8 word"

definition idx :: "byte list \<Rightarrow> nat \<Rightarrow> int option" where
  "idx data i = (if i < length data then Some (uint (data ! i)) else None)"

definition operand :: "int option \<Rightarrow> int" where
  "operand v = (case v of None \<Rightarrow> 0 | Some x \<Rightarrow> x)"

text \<open>
  The expression \<^verbatim>\<open>(data[hi] << 8) | data[lo]\<close>, which the decoder writes out for every
  16-bit field.
\<close>

definition word16 :: "byte list \<Rightarrow> nat \<Rightarrow> nat \<Rightarrow> int" where
  "word16 data hi lo = js_or (js_shl (operand (idx data hi)) 8) (operand (idx data lo))"

text \<open>
  The expression \<^verbatim>\<open>(data[a] << 24) | (data[b] << 16) | (data[c] << 8) | data[d]\<close> of the
  0x87 branch; \<^verbatim>\<open>|\<close> associates to the left.
\<close>

definition word32 :: "byte list \<Rightarrow> nat \<Rightarrow> nat \<Rightarrow> nat \<Rightarrow> nat \<Rightarrow> int" where
  "word32 data a b c d =
     js_or (js_or (js_or (js_shl (operand (idx data a)) 24) (js_shl (operand (idx data b)) 16))
                  (js_shl (operand (idx data c)) 8))
           (operand (idx data d))"

subsection \<open>Exceptions\<close>

text \<open>
  The two library calls of the decoder that can throw are \<^verbatim>\<open>toString(radix)\<close> and
  \<^verbatim>\<open>toFixed(digits)\<close>: each raises a RangeError when its argument is out of range.
  A computation that may throw has the type \<open>js_exception + 'a\<close>.
\<close>

datatype js_exception = RangeError

type_synonym 'a js = "js_exception + 'a"

text \<open>
  A template literal evaluates its parts from left to right and concatenates them; the
  first part that throws ends the evaluation.
\<close>

fun template :: "string js list \<Rightarrow> string js" where
  "template [] = Inr []"
| "template (p # ps) =
     (case p of
        Inl e \<Rightarrow> Inl e
      | Inr s \<Rightarrow> (case template ps of Inl e \<Rightarrow> Inl e | Inr t \<Rightarrow> Inr (s @ t)))"

text \<open>\<^verbatim>\<open>xs.map(f)\<close> where \<open>f\<close> may throw: elements in order, stopping at the first throw.\<close>

fun mapE :: "('a \<Rightarrow> 'b js) \<Rightarrow> 'a list \<Rightarrow> 'b list js" where
  "mapE f [] = Inr []"
| "mapE f (x # xs) =
     (case f x of
        Inl e \<Rightarrow> Inl e
      | Inr y \<Rightarrow> (case mapE f xs of Inl e \<Rightarrow> Inl e | Inr ys \<Rightarrow> Inr (y # ys)))"

subsection \<open>Strings\<close>

text \<open>Digits of a natural number in a radix between 2 and 36, lower case as JavaScript prints them.\<close>

definition digitChar :: "nat \<Rightarrow> char" where
  "digitChar d = ''0123456789abcdefghijklmnopqrstuvwxyz'' ! d"

fun radixDigits :: "nat \<Rightarrow> nat \<Rightarrow> string" where
  "radixDigits r n =
     (if r < 2 \<or> n < r then [digitChar n]
      else radixDigits r (n div r) @ [digitChar (n mod r)])"

declare radixDigits.simps [simp del]

text \<open>\<^verbatim>\<open>x.toString(radix)\<close> on an integer: a minus sign, then the digits of the magnitude.\<close>

definition intDigits :: "nat \<Rightarrow> int \<Rightarrow> string" where
  "intDigits r x = (if x < 0 then ''-'' @ radixDigits r (nat (- x)) else radixDigits r (nat x))"

definition toStringRadix :: "nat \<Rightarrow> int \<Rightarrow> string js" where
  "toStringRadix r x = (if 2 \<le> r \<and> r \<le> 36 then Inr (intDigits r x) else Inl RangeError)"

text \<open>String conversion of a value inside a template literal, \<^verbatim>\<open>${v}\<close>.\<close>

definition str :: "int \<Rightarrow> string" where
  "str x = intDigits 10 x"

definition strOpt :: "int option \<Rightarrow> string" where
  "strOpt v = (case v of None \<Rightarrow> ''undefined'' | Some x \<Rightarrow> str x)"

text \<open>\<^verbatim>\<open>toUpperCase\<close>, on the ASCII letters that digit strings are made of.\<close>

definition upperChar :: "char \<Rightarrow> char" where
  "upperChar c =
     (let n = (of_char c :: nat) in if 97 \<le> n \<and> n \<le> 122 then char_of (n - 32) else c)"

definition toUpperCase :: "string \<Rightarrow> string" where
  "toUpperCase s = map upperChar s"

text \<open>\<^verbatim>\<open>s.padStart(n, '0')\<close>.\<close>

definition padStart :: "nat \<Rightarrow> char \<Rightarrow> string \<Rightarrow> string" where
  "padStart n c s = replicate (n - length s) c @ s"

text \<open>\<^verbatim>\<open>xs.join(sep)\<close>.\<close>

fun join :: "string \<Rightarrow> string list \<Rightarrow> string" where
  "join sep [] = []"
| "join sep [x] = x"
| "join sep (x # y # ys) = x @ sep @ join sep (y # ys)"

text \<open>
  \<^verbatim>\<open>x.toFixed(f)\<close> as ECMAScript defines it on the mathematical value of \<open>x\<close>: the
  integer \<open>n\<close> with \<open>n / 10^f\<close> closest to \<open>|x|\<close> (the larger one on a tie), printed with
  \<open>f\<close> digits after the point. The scaled quantities of the decoder are doubles in the
  source; here they are the exact rationals, so the rounding of the double
  multiplication is not part of the model. All values the decoder formats are far below
  \<open>10^21\<close>, where \<^verbatim>\<open>toFixed\<close> switches to exponent notation.
\<close>

definition toFixed :: "nat \<Rightarrow> rat \<Rightarrow> string js" where
  "toFixed f x =
     (if 100 < f then Inl RangeError
      else
        let n = nat \<lfloor>\<bar>x\<bar> * 10 ^ f + 1 / 2\<rfloor>;
            m = radixDigits 10 n;
            z = replicate (f + 1 - length m) CHR ''0'' @ m;
            k = length z - f
        in Inr ((if x < 0 then ''-'' else '''')
                @ (if f = 0 then m else take k z @ ''.'' @ drop k z)))"

section \<open>Frame identifier codec\<close>

text \<open>
  \<^verbatim>\<open>ParsedFrameId\<close> of the protocol types: the five fields of a 29-bit extended
  identifier.
\<close>

record ParsedFrameId =
  ptp :: bool
  command :: int
  destinationAddress :: int
  sourceAddress :: int
  cnt :: bool

text \<open>
  Modelled from the spec: the function that packs a \<^verbatim>\<open>ParsedFrameId\<close> into an
  identifier is not among the sources; \<^verbatim>\<open>generateTestData\<close> builds its identifiers with
  \<^verbatim>\<open>(1 << 28) | (frame.cmd << 20) | (dst << 12) | (src << 4)\<close>. Following the
  specification, each field is shifted to its offset (bit 28, bits 27-20, bits 19-12,
  bits 11-4, bit 3) and the results are OR-ed; all other bits are zero.
\<close>

definition encodeIdentifier :: "ParsedFrameId \<Rightarrow> int" where
  "encodeIdentifier f =
     js_or (js_or (js_or (js_or (js_shl (if ptp f then 1 else 0) 28) (js_shl (command f) 20))
                         (js_shl (destinationAddress f) 12))
                  (js_shl (sourceAddress f) 4))
           (js_shl (if cnt f then 1 else 0) 3)"

text \<open>
  Modelled from the spec: the function that unpacks an identifier into a
  \<^verbatim>\<open>ParsedFrameId\<close> is not among the sources. The first four fields are the
  extractions \<^verbatim>\<open>logCanFrame\<close> performs, \<^verbatim>\<open>(frameId >> 28) & 1\<close>,
  \<^verbatim>\<open>(frameId >> 20) & 0xFF\<close>, \<^verbatim>\<open>(frameId >> 12) & 0xFF\<close> and \<^verbatim>\<open>(frameId >> 4) & 0xFF\<close>;
  the continuation flag is bit 3, as the specification places it.
\<close>

definition decodeIdentifier :: "int \<Rightarrow> ParsedFrameId" where
  "decodeIdentifier frameId =
     \<lparr> ptp = (js_and (js_sar frameId 28) 1 \<noteq> 0),
       command = js_and (js_sar frameId 20) 0xFF,
       destinationAddress = js_and (js_sar frameId 12) 0xFF,
       sourceAddress = js_and (js_sar frameId 4) 0xFF,
       cnt = (js_and (js_sar frameId 3) 1 \<noteq> 0) \<rparr>"

text \<open>The fields are within their bit widths.\<close>

definition validFields :: "ParsedFrameId \<Rightarrow> bool" where
  "validFields f =
     (0 \<le> command f \<and> command f < 256 \<and>
      0 \<le> destinationAddress f \<and> destinationAddress f < 256 \<and>
      0 \<le> sourceAddress f \<and> sourceAddress f < 256)"

text \<open>The identifier of a query frame as \<^verbatim>\<open>generateTestData\<close> writes it.\<close>

definition testFrameId :: "int \<Rightarrow> int \<Rightarrow> int \<Rightarrow> int" where
  "testFrameId cmd dst src =
     js_or (js_or (js_or (js_shl 1 28) (js_shl cmd 20)) (js_shl dst 12)) (js_shl src 4)"

section \<open>Payload decoder\<close>

text \<open>
  \<^verbatim>\<open>parseDataValue\<close> computes the fields of a command in local constants and returns
  them inside a template literal. The model keeps the two steps apart: \<open>decodePayload\<close>
  computes the constants of the selected \<^verbatim>\<open>case\<close> block, \<open>formatPayload\<close> builds the
  returned string. One constructor stands for each \<^verbatim>\<open>return\<close> of the switch; its
  arguments are the constants in the order the source declares them.
\<close>

datatype fields =
    Insufficient
  | Limits rat rat rat rat
  | SocSoh rat rat int
  | VoltageCurrent rat rat rat
  | CellVoltage rat "int option" "int option" rat "int option" "int option"
  | Temperature rat "int option" "int option" rat "int option" "int option"
  | OperationStatus string string string
  | AccumulatedTimes int int
  | AccumulatedPower rat rat
  | SoftwareVersion string
  | AlarmStatus "nat list"
  | Raw "byte list"

text \<open>
  The signed fields: \<^verbatim>\<open>raw > 32767 ? (raw - 65536) * 0.1 : raw * 0.1\<close>, written out in
  the source for the current and for both temperatures.
\<close>

definition signedTenths :: "int \<Rightarrow> rat" where
  "signedTenths raw = (if raw > 32767 then of_int (raw - 65536) * 0.1 else of_int raw * 0.1)"

text \<open>
  \<^verbatim>\<open>names[data[i]] || 'Unknown'\<close>: an index outside the array, or \<^verbatim>\<open>undefined\<close>, reads
  \<^verbatim>\<open>undefined\<close> and falls through to the default. No name is the empty string.
\<close>

definition lookupName :: "string list \<Rightarrow> int option \<Rightarrow> string" where
  "lookupName names v =
     (case v of
        None \<Rightarrow> ''Unknown''
      | Some k \<Rightarrow> if 0 \<le> k \<and> nat k < length names then names ! nat k else ''Unknown'')"

text \<open>
  The nested iteration of the 0xC0 branch: \<open>i\<close> over the eight bytes, \<open>bit\<close> over the eight
  bits of each, collecting \<open>i * 8 + bit\<close> where \<^verbatim>\<open>(data[i] >> bit) & 1\<close> is not zero.
\<close>

definition alarmBits :: "byte list \<Rightarrow> nat list" where
  "alarmBits data =
     [i * 8 + b. i \<leftarrow> [0..<8], b \<leftarrow> [0..<8], js_and (js_sar (operand (idx data i)) b) 1 \<noteq> 0]"

definition decodePayload :: "int \<Rightarrow> byte list \<Rightarrow> fields" where
  "decodePayload commandCode data =
     (if commandCode = 0x80 then
        (if length data < 8 then Insufficient
         else Limits (of_int (word16 data 1 0) * 0.1) (of_int (word16 data 3 2) * 0.1)
                     (of_int (word16 data 5 4) * 0.1) (of_int (word16 data 7 6) * 0.1))
      else if commandCode = 0x81 then
        (if length data < 6 then Insufficient
         else SocSoh (of_int (word16 data 1 0) * 0.1) (of_int (word16 data 3 2) * 0.1)
                     (word16 data 5 4))
      else if commandCode = 0x82 then
        (if length data < 4 then Insufficient
         else let voltage = of_int (word16 data 1 0) * 0.1;
                  currentRaw = word16 data 3 2;
                  current = signedTenths currentRaw
              in VoltageCurrent voltage current (voltage * \<bar>current\<bar> / 1000))
      else if commandCode = 0x83 then
        (if length data < 8 then Insufficient
         else CellVoltage (of_int (word16 data 1 0) * 0.001) (idx data 2) (idx data 3)
                          (of_int (word16 data 5 4) * 0.001) (idx data 6) (idx data 7))
      else if commandCode = 0x84 then
        (if length data < 8 then Insufficient
         else Temperature (signedTenths (word16 data 1 0)) (idx data 2) (idx data 3)
                          (signedTenths (word16 data 5 4)) (idx data 6) (idx data 7))
      else if commandCode = 0x85 then
        (if length data < 4 then Insufficient
         else OperationStatus
                (lookupName [''PowerOn'', ''Start'', ''Alone'', ''Charge'', ''Discharge'',
                             ''WaitCharge'', ''WaitDischarge'', ''Lock''] (idx data 0))
                (lookupName [''Empty'', ''Boot'', ''Shutdown''] (idx data 1))
                (lookupName [''Empty'', ''Normal'', ''Alarm'', ''Fault''] (idx data 2)))
      else if commandCode = 0x86 then
        (if length data < 4 then Insufficient
         else AccumulatedTimes (word16 data 1 0) (word16 data 3 2))
      else if commandCode = 0x87 then
        (if length data < 8 then Insufficient
         else AccumulatedPower (of_int (word32 data 3 2 1 0) * 0.1)
                               (of_int (word32 data 7 6 5 4) * 0.1))
      else if commandCode = 0x8F then
        SoftwareVersion (map (\<lambda>b. char_of (uint b)) (filter (\<lambda>b. b \<noteq> 0) data))
      else if commandCode = 0xC0 then
        AlarmStatus (alarmBits data)
      else Raw data)"

text \<open>\<^verbatim>\<open>b.toString(16).toUpperCase().padStart(2, '0')\<close>.\<close>

definition hexByte :: "int \<Rightarrow> string js" where
  "hexByte b =
     (case toStringRadix 16 b of
        Inl e \<Rightarrow> Inl e
      | Inr s \<Rightarrow> Inr (padStart 2 CHR ''0'' (toUpperCase s)))"

text \<open>
  The returned strings. In the 0x82 branch the source formats the power with
  \<^verbatim>\<open>toFixed(2)\<close> before it builds the template. The degree sign of the 0x84 branch is
  the character with code 0xB0.
\<close>

fun formatPayload :: "fields \<Rightarrow> string js" where
  "formatPayload Insufficient = Inr ''Insufficient data''"
| "formatPayload (Limits chargeV chargeI dischargeV dischargeI) =
     template [Inr ''Charge: '', toFixed 1 chargeV, Inr ''V/'', toFixed 1 chargeI,
               Inr ''A, Discharge: '', toFixed 1 dischargeV, Inr ''V/'', toFixed 1 dischargeI,
               Inr ''A'']"
| "formatPayload (SocSoh soc soh backup) =
     template [Inr ''SOC: '', toFixed 1 soc, Inr ''%, SOH: '', toFixed 1 soh,
               Inr ''%, Backup: '', Inr (str backup), Inr ''min'']"
| "formatPayload (VoltageCurrent voltage current powerKw) =
     (case toFixed 2 powerKw of
        Inl e \<Rightarrow> Inl e
      | Inr p \<Rightarrow>
          template [Inr ''Voltage: '', toFixed 1 voltage, Inr ''V, Current: '',
                    toFixed 1 current, Inr ''A, Power: '', Inr p, Inr ''kW''])"
| "formatPayload (CellVoltage maxV maxPack maxCell minV minPack minCell) =
     template [Inr ''Max: '', toFixed 3 maxV, Inr ''V (P'', Inr (strOpt maxPack), Inr ''C'',
               Inr (strOpt maxCell), Inr ''), Min: '', toFixed 3 minV, Inr ''V (P'',
               Inr (strOpt minPack), Inr ''C'', Inr (strOpt minCell), Inr '')'']"
| "formatPayload (Temperature maxT maxTPack maxTSensor minT minTPack minTSensor) =
     template [Inr ''Max: '', toFixed 1 maxT, Inr [CHR 0xB0], Inr ''C (P'',
               Inr (strOpt maxTPack), Inr ''S'', Inr (strOpt maxTSensor), Inr ''), Min: '',
               toFixed 1 minT, Inr [CHR 0xB0], Inr ''C (P'', Inr (strOpt minTPack), Inr ''S'',
               Inr (strOpt minTSensor), Inr '')'']"
| "formatPayload (OperationStatus sysStatus workStatus opStatus) =
     Inr (''System: '' @ sysStatus @ '', Work: '' @ workStatus @ '', Op: '' @ opStatus)"
| "formatPayload (AccumulatedTimes chargeTimes dischargeTimes) =
     Inr (''Charge cycles: '' @ str chargeTimes @ '', Discharge cycles: '' @ str dischargeTimes)"
| "formatPayload (AccumulatedPower chargeEnergy dischargeEnergy) =
     template [Inr ''Charge: '', toFixed 1 chargeEnergy, Inr ''kWh, Discharge: '',
               toFixed 1 dischargeEnergy, Inr ''kWh'']"
| "formatPayload (SoftwareVersion version) = Inr (''Version: '' @ version)"
| "formatPayload (AlarmStatus bits) =
     Inr (if length bits > 0
          then ''Alarms: '' @ join '', '' (map (\<lambda>n. ''Bit'' @ str (int n)) bits)
          else ''No alarms'')"
| "formatPayload (Raw data) =
     (case mapE (\<lambda>b. hexByte (uint b)) data of
        Inl e \<Rightarrow> Inl e
      | Inr hs \<Rightarrow> Inr (''Raw: '' @ join '' '' hs))"

text \<open>
  The body of the \<^verbatim>\<open>try\<close> block, and the function itself: the length test in front,
  then the body, with every exception caught and replaced by \<^verbatim>\<open>'Parse error'\<close>.
\<close>

definition parseSwitch :: "int \<Rightarrow> byte list \<Rightarrow> string js" where
  "parseSwitch commandCode data = formatPayload (decodePayload commandCode data)"

definition parseDataValue :: "int \<Rightarrow> byte list \<Rightarrow> string" where
  "parseDataValue commandCode data =
     (if length data < 2 then ''Insufficient data''
      else case parseSwitch commandCode data of
             Inl e \<Rightarrow> ''Parse error''
           | Inr s \<Rightarrow> s)"

text \<open>
  The reading the specification gives to multi-byte fields, for comparison with the
  decoder: an unsigned little-endian value of \<open>n\<close> bytes starting at an offset, and the
  two's-complement reconstruction of a 16-bit raw value.
\<close>

fun spec_unsigned_le :: "byte list \<Rightarrow> nat \<Rightarrow> nat \<Rightarrow> int" where
  "spec_unsigned_le payload off 0 = 0"
| "spec_unsigned_le payload off (Suc n) =
     uint (payload ! off) + 256 * spec_unsigned_le payload (Suc off) n"

definition spec_signed16 :: "int \<Rightarrow> int" where
  "spec_signed16 v = (if v \<le> 32767 then v else v - 65536)"

section \<open>Alarm severity\<close>

text \<open>
  \<^verbatim>\<open>getAlarmSeverity\<close> of the BMS store: membership in the list \<^verbatim>\<open>level3\<close>, then in
  \<^verbatim>\<open>level2\<close>, and 1 for every other bit position.
\<close>

definition getAlarmSeverity :: "int \<Rightarrow> nat" where
  "getAlarmSeverity bitNo =
     (let level3 = [0, 1, 14, 18, 19, 20, 21, 22, 23, 24, 25, 26, 27, 28, 29, 30, 31, 32];
          level2 = [2, 3, 4, 5, 6, 7, 8, 9]
      in if bitNo \<in> set level3 then 3 else if bitNo \<in> set level2 then 2 else 1)"

section \<open>Debug log store\<close>

datatype direction = TX | RX

text \<open>
  The argument of \<^verbatim>\<open>addLogEntry\<close> is a \<^verbatim>\<open>CanLogEntry\<close> without the fields the store
  fills in; the entry extends it, as the spread \<^verbatim>\<open>{...entry, id: ...}\<close> does. Two fields
  are renamed: \<^verbatim>\<open>id\<close> is \<open>entryId\<close> and the display name \<^verbatim>\<open>command\<close> is \<open>commandName\<close>.
  The timestamp is the reading of the clock, in milliseconds.
\<close>

record LogInput =
  direction :: direction
  frameId :: int
  commandCode :: int
  source :: int
  destination :: int
  data :: "byte list"

record CanLogEntry = LogInput +
  entryId :: nat
  timestamp :: int
  frameIdHex :: string
  dataHex :: string
  commandName :: string
  parsedValue :: string

text \<open>The module state: \<^verbatim>\<open>logs\<close>, \<^verbatim>\<open>isRecording\<close>, \<^verbatim>\<open>logIdCounter\<close> and \<^verbatim>\<open>maxLogs\<close>.\<close>

record DebugStore =
  logs :: "CanLogEntry list"
  isRecording :: bool
  logIdCounter :: nat
  maxLogs :: int

definition initialStore :: DebugStore where
  "initialStore = \<lparr> logs = [], isRecording = False, logIdCounter = 0, maxLogs = 1000 \<rparr>"

definition startRecording :: "DebugStore \<Rightarrow> DebugStore" where
  "startRecording s = s\<lparr> isRecording := True, logs := [], logIdCounter := 0 \<rparr>"

definition stopRecording :: "DebugStore \<Rightarrow> DebugStore" where
  "stopRecording s = s\<lparr> isRecording := False \<rparr>"

definition clearLogs :: "DebugStore \<Rightarrow> DebugStore" where
  "clearLogs s = s\<lparr> logs := [], logIdCounter := 0 \<rparr>"

definition setMaxLogs :: "int \<Rightarrow> DebugStore \<Rightarrow> DebugStore" where
  "setMaxLogs mx s = s\<lparr> maxLogs := mx \<rparr>"

text \<open>
  The command table of \<^verbatim>\<open>getCommandName\<close>. The radix of \<^verbatim>\<open>toString(16)\<close> is a literal
  within range here and in \<^verbatim>\<open>addLogEntry\<close>, outside any \<^verbatim>\<open>try\<close>, so these calls are
  written with the digits directly.
\<close>

definition commands :: "(int \<times> string) list" where
  "commands =
     [(0x00, ''Shutdown''), (0x10, ''Force Output''), (0x11, ''Reset''),
      (0x80, ''Charge/Discharge Limits''), (0x81, ''SOC/SOH''), (0x82, ''Voltage/Current''),
      (0x83, ''Cell Voltage''), (0x84, ''Temperature''), (0x85, ''Operation Status''),
      (0x86, ''Accumulated Times''), (0x87, ''Accumulated Power''),
      (0x8F, ''Software Version''), (0xC0, ''Alarm Status''), (0xD0, ''Debug Status'')]"

definition getCommandName :: "int \<Rightarrow> string" where
  "getCommandName code =
     (case map_of commands code of
        Some name \<Rightarrow> name
      | None \<Rightarrow> ''Unknown (0x'' @ toUpperCase (intDigits 16 code) @ '')'')"

text \<open>
  \<^verbatim>\<open>logIdCounter++\<close>. A JavaScript number counts exactly up to \<open>2^53\<close>; adding one to
  \<open>2^53\<close> rounds back to \<open>2^53\<close>. The counter starts at 0 and only grows by this
  step, so it never exceeds \<open>2^53\<close>.
\<close>

definition increment :: "nat \<Rightarrow> nat" where
  "increment n = (if n < 2 ^ 53 then n + 1 else n)"

text \<open>
  \<^verbatim>\<open>xs.slice(start)\<close> for an integer \<open>start\<close>: a negative start counts from the end
  and is clamped at the front; a start of zero or more is clamped at the length.
\<close>

definition slice :: "'a list \<Rightarrow> int \<Rightarrow> 'a list" where
  "slice xs start =
     (let len = int (length xs);
          k = (if start < 0 then max (len + start) 0 else min start len)
      in drop (nat k) xs)"

text \<open>\<^verbatim>\<open>data.map(b => b.toString(16).toUpperCase().padStart(2, '0')).join(' ')\<close>.\<close>

definition hexDump :: "byte list \<Rightarrow> string" where
  "hexDump payload =
     join '' '' (map (\<lambda>b. padStart 2 CHR ''0'' (toUpperCase (intDigits 16 (uint b)))) payload)"

text \<open>The constant \<^verbatim>\<open>newEntry\<close> of \<^verbatim>\<open>addLogEntry\<close>, with the id and the clock reading it is given.\<close>

definition newEntry :: "LogInput \<Rightarrow> nat \<Rightarrow> int \<Rightarrow> CanLogEntry" where
  "newEntry entry n now =
     \<lparr> direction = direction entry, frameId = frameId entry,
       commandCode = commandCode entry, source = source entry,
       destination = destination entry, data = data entry,
       entryId = n,
       timestamp = now,
       frameIdHex = ''0x'' @ padStart 8 CHR ''0'' (toUpperCase (intDigits 16 (frameId entry))),
       dataHex = hexDump (data entry),
       commandName = getCommandName (commandCode entry),
       parsedValue = parseDataValue (commandCode entry) (data entry) \<rparr>"

definition addLogEntry :: "LogInput \<Rightarrow> int \<Rightarrow> DebugStore \<Rightarrow> DebugStore" where
  "addLogEntry entry now s =
     (if \<not> isRecording s then s
      else s\<lparr> logIdCounter := increment (logIdCounter s),
              logs := slice (logs s @ [newEntry entry (logIdCounter s) now]) (- maxLogs s) \<rparr>)"

text \<open>
  \<^verbatim>\<open>logCanFrame\<close> extracts the command code and the two addresses from the identifier and
  hands them to \<^verbatim>\<open>addLogEntry\<close>. It also computes the point-to-point flag, which it does
  not use.
\<close>

definition logCanFrame :: "direction \<Rightarrow> int \<Rightarrow> byte list \<Rightarrow> int \<Rightarrow> DebugStore \<Rightarrow> DebugStore" where
  "logCanFrame dir fid payload now s =
     (if \<not> isRecording s then s
      else
        addLogEntry
          \<lparr> direction = dir, frameId = fid,
            commandCode = js_and (js_sar fid 20) 0xFF,
            source = js_and (js_sar fid 4) 0xFF,
            destination = js_and (js_sar fid 12) 0xFF,
            data = payload \<rparr> now s)"

text \<open>The calls a client of the store can make, and a sequence of them from a given state.\<close>

datatype operation =
    StartRecording
  | StopRecording
  | ClearLogs
  | SetMaxLogs int
  | AddLogEntry LogInput int
  | LogCanFrame direction int "byte list" int

fun applyOp :: "operation \<Rightarrow> DebugStore \<Rightarrow> DebugStore" where
  "applyOp StartRecording s = startRecording s"
| "applyOp StopRecording s = stopRecording s"
| "applyOp ClearLogs s = clearLogs s"
| "applyOp (SetMaxLogs mx) s = setMaxLogs mx s"
| "applyOp (AddLogEntry entry now) s = addLogEntry entry now s"
| "applyOp (LogCanFrame dir fid payload now) s = logCanFrame dir fid payload now s"

definition run :: "operation list \<Rightarrow> DebugStore \<Rightarrow> DebugStore" where
  "run ops s = foldl (\<lambda>st op. applyOp op st) s ops"

text \<open>A run of consecutive \<^verbatim>\<open>addLogEntry\<close> calls, one per input and clock reading.\<close>

definition appendAll :: "(LogInput \<times> int) list \<Rightarrow> DebugStore \<Rightarrow> DebugStore" where
  "appendAll xs s = run (map (\<lambda>(entry, now). AddLogEntry entry now) xs) s"

text \<open>
  The entries such a run creates when it starts with the counter at 0: the \<open>n\<close>-th
  input, counted from 0, becomes the entry with id \<open>n\<close>.
\<close>

definition created :: "(LogInput \<times> int) list \<Rightarrow> CanLogEntry list" where
  "created xs = map (\<lambda>(n, (entry, now)). newEntry entry n now) (enumerate 0 xs)"

text \<open>
  The entry a call hands to the log: \<^verbatim>\<open>addLogEntry\<close> and \<^verbatim>\<open>logCanFrame\<close> build one while
  recording, with the counter as its id; no other call builds any.
\<close>

fun appended :: "operation \<Rightarrow> DebugStore \<Rightarrow> CanLogEntry list" where
  "appended StartRecording s = []"
| "appended StopRecording s = []"
| "appended ClearLogs s = []"
| "appended (SetMaxLogs mx) s = []"
| "appended (AddLogEntry entry now) s =
     (if isRecording s then [newEntry entry (logIdCounter s) now] else [])"
| "appended (LogCanFrame dir fid payload now) s =
     (if isRecording s
      then [newEntry \<lparr> direction = dir, frameId = fid,
                        commandCode = js_and (js_sar fid 20) 0xFF,
                        source = js_and (js_sar fid 4) 0xFF,
                        destination = js_and (js_sar fid 12) 0xFF,
                        data = payload \<rparr> (logIdCounter s) now]
      else [])"

text \<open>
  The entries built during a sequence of calls from a given state, in the order of the
  calls, whether or not they are still in the log afterwards.
\<close>

fun history :: "operation list \<Rightarrow> DebugStore \<Rightarrow> CanLogEntry list" where
  "history [] s = []"
| "history (op # ops) s = appended op s @ history ops (applyOp op s)"

text \<open>
  The ids of the entries in the log increase strictly from the oldest to the newest, and
  all lie below the counter.
\<close>

definition ids_ok :: "DebugStore \<Rightarrow> bool" where
  "ids_ok s \<longleftrightarrow>
     sorted_wrt (<) (map entryId (logs s)) \<and> list_all (\<lambda>e. entryId e < logIdCounter s) (logs s)"

text \<open>
  The Voltage/Current response of \<^verbatim>\<open>generateTestData\<close>, from the BMS (0x01) to the host
  (0x80), as \<^verbatim>\<open>logCanFrame\<close> passes it on.
\<close>

definition sampleEntry :: LogInput where
  "sampleEntry =
     \<lparr> direction = RX, frameId = testFrameId 0x82 0x80 0x01, commandCode = 0x82,
       source = 0x01, destination = 0x80,
       data = [0xB9, 0x1F, 0x38, 0x00, 0x00, 0x00, 0x00, 0x00] \<rparr>"

section \<open>Properties of the identifier codec\<close>

lemma toInt32_sint: "toInt32 (sint (w :: 32 word)) = w"
  by (simp add: toInt32_def)

lemma toInt32_uint8: "toInt32 (uint (b :: byte)) = ucast b"
  by (simp add: toInt32_def)

lemma toInt32_flag: "toInt32 (if p then 1 else 0) = of_bool p"
  by (simp add: toInt32_def)

lemma toInt32_numerals: "toInt32 255 = mask 8" "toInt32 1 = 1" "toInt32 0 = 0"
  by (simp_all add: toInt32_def mask_eq_exp_minus_1)

lemma sint_ucast8: "sint (ucast (b :: byte) :: 32 word) = uint b"
proof -
  have u: "uint (ucast b :: 32 word) = uint b"
    by (simp add: unsigned_ucast_eq take_bit_eq_mod) (use uint_lt2p [of b] in simp)
  have "uint b < 2 ^ 31"
    using uint_lt2p [of b] by simp
  moreover have "- (2 ^ 31) \<le> uint b"
    by (rule order_trans [of _ 0]) simp_all
  ultimately have "signed_take_bit 31 (uint b) = uint b"
    by (simp only: signed_take_bit_int_eq_self_iff)
  then show ?thesis
    by (simp add: sint_uint u)
qed

lemma sint_of_bool: "sint (of_bool p :: 32 word) = of_bool p"
  by (cases p) simp_all

lemma byte_of_int: "0 \<le> x \<Longrightarrow> x < 256 \<Longrightarrow> \<exists>b :: byte. x = uint b"
  by (rule exI [of _ "word_of_int x"]) (simp add: uint_word_of_int take_bit_eq_mod)

lemma field_extract:
  "js_and (js_sar x n) m = sint (signed_drop_bit (n mod 32) (toInt32 x) AND toInt32 m)"
  by (simp add: js_and_def js_sar_def toInt32_sint)

text \<open>The five extractions, on the 32 bits of an identifier assembled from its fields.\<close>

lemma codec_bits:
  fixes c d s :: byte and p k :: bool
  defines "w \<equiv> (push_bit 28 (of_bool p) OR push_bit 20 (ucast c) OR push_bit 12 (ucast d)
      OR push_bit 4 (ucast s) OR push_bit 3 (of_bool k) :: 32 word)"
  shows "signed_drop_bit 28 w AND mask 1 = of_bool p"
    and "signed_drop_bit 20 w AND mask 8 = ucast c"
    and "signed_drop_bit 12 w AND mask 8 = ucast d"
    and "signed_drop_bit 4 w AND mask 8 = ucast s"
    and "signed_drop_bit 3 w AND mask 1 = of_bool k"
  unfolding w_def
  by (rule bit_word_eqI; auto simp: bit_simps dest: bit_imp_le_length)+

text \<open>
  \<^bold>\<open>C1.\<close> For every tuple of identifier fields within their bit widths (the two flags are
  booleans, the command code and both addresses lie in 0..255), decoding the encoded
  identifier returns the same five fields.
\<close>

theorem identifier_roundtrip:
  "validFields f \<Longrightarrow> decodeIdentifier (encodeIdentifier f) = f"
proof -
  assume v: "validFields f"
  obtain c :: byte where c: "command f = uint c"
    using v byte_of_int unfolding validFields_def by blast
  obtain d :: byte where d: "destinationAddress f = uint d"
    using v byte_of_int unfolding validFields_def by blast
  obtain s :: byte where s: "sourceAddress f = uint s"
    using v byte_of_int unfolding validFields_def by blast
  define w where "w = toInt32 (encodeIdentifier f)"
  have e: "w = push_bit 28 (of_bool (ptp f)) OR push_bit 20 (ucast c) OR push_bit 12 (ucast d)
      OR push_bit 4 (ucast s) OR push_bit 3 (of_bool (cnt f))"
    by (simp add: w_def encodeIdentifier_def js_or_def js_shl_def toInt32_sint toInt32_uint8
        toInt32_flag c d s or.assoc)
  note cb = codec_bits [of "ptp f" c d s "cnt f", unfolded mask_1, folded e]
  have x: "js_and (js_sar (encodeIdentifier f) n) m
      = sint (signed_drop_bit (n mod 32) w AND toInt32 m)" for n m
    by (simp add: field_extract w_def)
  have "js_and (js_sar (encodeIdentifier f) 28) 1 = of_bool (ptp f)"
    by (simp add: x toInt32_numerals cb sint_of_bool)
  moreover have "js_and (js_sar (encodeIdentifier f) 3) 1 = of_bool (cnt f)"
    by (simp add: x toInt32_numerals cb sint_of_bool)
  moreover have "js_and (js_sar (encodeIdentifier f) 20) 0xFF = command f"
    by (simp add: x toInt32_numerals cb sint_ucast8 c)
  moreover have "js_and (js_sar (encodeIdentifier f) 12) 0xFF = destinationAddress f"
    by (simp add: x toInt32_numerals cb sint_ucast8 d)
  moreover have "js_and (js_sar (encodeIdentifier f) 4) 0xFF = sourceAddress f"
    by (simp add: x toInt32_numerals cb sint_ucast8 s)
  ultimately show ?thesis
    by (simp add: decodeIdentifier_def)
qed

theorem identifier_roundtrip_witness:
  "validFields \<lparr> ptp = True, command = 0x82, destinationAddress = 0x01,
                  sourceAddress = 0x80, cnt = True \<rparr>
   \<and> decodeIdentifier (encodeIdentifier \<lparr> ptp = True, command = 0x82,
         destinationAddress = 0x01, sourceAddress = 0x80, cnt = True \<rparr>)
       = \<lparr> ptp = True, command = 0x82, destinationAddress = 0x01,
           sourceAddress = 0x80, cnt = True \<rparr>"
  using identifier_roundtrip [of "\<lparr> ptp = True, command = 0x82, destinationAddress = 0x01,
      sourceAddress = 0x80, cnt = True \<rparr>"]
  by (simp add: validFields_def)

section \<open>Properties of the payload decoder\<close>

subsection \<open>The integer fields\<close>

text \<open>Reading a 32-bit pattern as a signed number, for values inside and outside the positive range.\<close>

lemma sint32_small:
  assumes "- (2 ^ 31) \<le> j" "j < 2 ^ 31"
  shows "sint (word_of_int j :: 32 word) = j"
  using assms by (simp add: signed_of_int signed_take_bit_int_eq_self)

lemma sint32_wrap:
  assumes "2 ^ 31 \<le> k" "k < 2 ^ 32"
  shows "sint (word_of_int k :: 32 word) = k - 2 ^ 32"
proof -
  have "(word_of_int k :: 32 word) = word_of_int (k - 2 ^ 32)"
    by simp
  moreover have "sint (word_of_int (k - 2 ^ 32) :: 32 word) = k - 2 ^ 32"
    using assms by (intro sint32_small) simp_all
  ultimately show ?thesis
    by (simp only:)
qed

lemma sint_or_bytes16:
  "sint (push_bit 8 (ucast (h :: byte)) OR ucast (l :: byte) :: 32 word) = uint l + 256 * uint h"
proof -
  define k where "k = uint l + 256 * uint h"
  have "(push_bit 8 (ucast h) OR ucast l :: 32 word) = push_bit 8 (ucast h) + ucast l"
    by (rule disjunctive_add [symmetric]) (auto simp: bit_simps dest: bit_imp_le_length)
  then have eq: "(push_bit 8 (ucast h) OR ucast l :: 32 word) = word_of_int k"
    by (simp add: push_bit_eq_mult k_def)
  have "0 \<le> k" "k < 2 ^ 31"
    using uint_lt2p [of l] uint_lt2p [of h] by (simp_all add: k_def)
  then have "sint (word_of_int k :: 32 word) = k"
    by (intro sint32_small) simp_all
  then show ?thesis
    by (simp only: eq) (simp add: k_def)
qed

text \<open>A 16-bit field read inside the payload is the unsigned little-endian value of its two bytes.\<close>

lemma word16_value:
  "hi < length payload \<Longrightarrow> lo < length payload \<Longrightarrow>
   word16 payload hi lo = uint (payload ! lo) + 256 * uint (payload ! hi)"
  by (simp add: word16_def idx_def operand_def js_or_def js_shl_def toInt32_sint toInt32_uint8
        sint_or_bytes16)

lemma sint_or_bytes32:
  fixes b0 b1 b2 b3 :: byte
  defines "k \<equiv> uint b0 + 256 * uint b1 + 65536 * uint b2 + 16777216 * uint b3"
  shows "sint (((push_bit 24 (ucast b3) OR push_bit 16 (ucast b2)) OR push_bit 8 (ucast b1))
               OR ucast b0 :: 32 word)
     = (if k < 2 ^ 31 then k else k - 2 ^ 32)"
proof -
  define A B C D :: "32 word"
    where "A = push_bit 24 (ucast b3)" and "B = push_bit 16 (ucast b2)"
      and "C = push_bit 8 (ucast b1)" and "D = ucast b0"
  note defs = A_def B_def C_def D_def
  have 3: "((A OR B) OR C) OR D = ((A OR B) OR C) + D"
    unfolding defs
    by (rule disjunctive_add [symmetric]) (auto simp: bit_simps dest: bit_imp_le_length)
  have 2: "(A OR B) OR C = (A OR B) + C"
    unfolding defs
    by (rule disjunctive_add [symmetric]) (auto simp: bit_simps dest: bit_imp_le_length)
  have 1: "A OR B = A + B"
    unfolding defs
    by (rule disjunctive_add [symmetric]) (auto simp: bit_simps dest: bit_imp_le_length)
  have "((A OR B) OR C) OR D = ((A OR B) OR C) + D"
    by (rule 3)
  also have "\<dots> = ((A OR B) + C) + D"
    by (simp only: 2)
  also have "\<dots> = ((A + B) + C) + D"
    by (simp only: 1)
  also have "\<dots> = word_of_int k"
    by (simp add: defs k_def push_bit_eq_mult)
  finally have eq: "((A OR B) OR C) OR D = word_of_int k" .
  have k: "0 \<le> k" "k < 2 ^ 32"
    using uint_lt2p [of b0] uint_lt2p [of b1] uint_lt2p [of b2] uint_lt2p [of b3]
    by (simp_all add: k_def)
  have "sint (word_of_int k :: 32 word) = (if k < 2 ^ 31 then k else k - 2 ^ 32)"
  proof (cases "k < 2 ^ 31")
    case True
    with k have "sint (word_of_int k :: 32 word) = k"
      by (intro sint32_small) simp_all
    with True show ?thesis by simp
  next
    case False
    with k have "sint (word_of_int k :: 32 word) = k - 2 ^ 32"
      by (intro sint32_wrap) simp_all
    with False show ?thesis by simp
  qed
  then show ?thesis
    by (simp only: eq [unfolded defs])
qed

lemma word32_value:
  assumes "a < length payload" "b < length payload" "c < length payload" "d < length payload"
  shows "word32 payload a b c d
     = (let k = uint (payload ! d) + 256 * uint (payload ! c) + 65536 * uint (payload ! b)
                + 16777216 * uint (payload ! a)
        in if k < 2 ^ 31 then k else k - 2 ^ 32)"
  using assms
  by (simp add: word32_def idx_def operand_def js_or_def js_shl_def toInt32_sint toInt32_uint8
        sint_or_bytes32 Let_def)

lemma spec_unsigned_le_2:
  "spec_unsigned_le payload off 2 = uint (payload ! off) + 256 * uint (payload ! (off + 1))"
  by (simp add: numeral_2_eq_2)

lemma spec_unsigned_le_4:
  "spec_unsigned_le payload off 4
     = uint (payload ! off) + 256 * uint (payload ! (off + 1)) + 65536 * uint (payload ! (off + 2))
       + 16777216 * uint (payload ! (off + 3))"
  by (simp add: numeral_eq_Suc)

lemma word16_le:
  assumes "off + 1 < length payload"
  shows "word16 payload (off + 1) off = spec_unsigned_le payload off 2"
  using assms by (simp only: spec_unsigned_le_2) (simp add: word16_value)

lemma word32_le:
  assumes "off + 3 < length payload"
  shows "word32 payload (off + 3) (off + 2) (off + 1) off
     = (let u = spec_unsigned_le payload off 4 in if u < 2 ^ 31 then u else u - 2 ^ 32)"
  using assms by (simp only: spec_unsigned_le_4) (simp add: word32_value)

text \<open>
  What the 0x87 branch computes: each energy is the little-endian value of its four bytes
  read as a \<^emph>\<open>signed\<close> 32-bit number, because \<^verbatim>\<open>|\<close> and \<^verbatim>\<open><<\<close> give signed results. It
  is the unsigned value exactly when the top byte is below 0x80.
\<close>

lemma accumulated_power_decode:
  assumes "8 \<le> length payload"
  shows "decodePayload 0x87 payload
     = AccumulatedPower
         (of_int (let u = spec_unsigned_le payload 0 4 in if u < 2 ^ 31 then u else u - 2 ^ 32) * 0.1)
         (of_int (let u = spec_unsigned_le payload 4 4 in if u < 2 ^ 31 then u else u - 2 ^ 32) * 0.1)"
proof -
  have l: "0 + 3 < length payload" "4 + 3 < length payload"
    using assms by simp_all
  have "word32 payload 3 2 1 0
      = (let u = spec_unsigned_le payload 0 4 in if u < 2 ^ 31 then u else u - 2 ^ 32)"
    using word32_le [OF l(1)] by (simp only: add_0)
  moreover have "word32 payload 7 6 5 4
      = (let u = spec_unsigned_le payload 4 4 in if u < 2 ^ 31 then u else u - 2 ^ 32)"
    using word32_le [OF l(2)] by simp
  ultimately show ?thesis
    using assms by (simp add: decodePayload_def)
qed

lemma signedTenths_spec: "signedTenths v = of_int (spec_signed16 v) * 0.1"
  by (simp add: signedTenths_def spec_signed16_def)

lemma spec_signed16_twos_complement:
  assumes "0 \<le> v" "v < 65536"
  shows "spec_signed16 v = sint (word_of_int v :: 16 word)"
proof (cases "v \<le> 32767")
  case True
  with assms have "signed_take_bit 15 v = v"
    by (intro signed_take_bit_int_eq_self) simp_all
  with True show ?thesis
    by (simp add: spec_signed16_def signed_of_int)
next
  case False
  have "(word_of_int v :: 16 word) = word_of_int (v - 2 ^ 16)"
    by simp
  moreover from False assms have "signed_take_bit 15 (v - 2 ^ 16) = v - 2 ^ 16"
    by (intro signed_take_bit_int_eq_self) simp_all
  ultimately have "sint (word_of_int v :: 16 word) = v - 2 ^ 16"
    by (simp only: signed_of_int) simp
  with False show ?thesis
    by (simp add: spec_signed16_def)
qed

lemma idx_in_range: "i < length payload \<Longrightarrow> idx payload i = Some (uint (payload ! i))"
  by (simp add: idx_def)

subsection \<open>Exceptions and the error branches\<close>

lemma template_no_throw: "list_all (\<lambda>p. \<not> isl p) ps \<Longrightarrow> \<not> isl (template ps)"
  by (induction ps) (auto split: sum.splits)

lemma toFixed_no_throw: "f \<le> 100 \<Longrightarrow> \<not> isl (toFixed f x)"
  by (simp add: toFixed_def Let_def)

lemma hexByte_value: "hexByte b = Inr (padStart 2 CHR ''0'' (toUpperCase (intDigits 16 b)))"
  by (simp add: hexByte_def toStringRadix_def)

lemma mapE_hexByte:
  "mapE (\<lambda>b. hexByte (uint b)) payload
     = Inr (map (\<lambda>b. padStart 2 CHR ''0'' (toUpperCase (intDigits 16 (uint b)))) payload)"
  by (induction payload) (simp_all add: hexByte_value)

lemma formatPayload_Raw: "formatPayload (Raw payload) = Inr (''Raw: '' @ hexDump payload)"
  by (simp add: mapE_hexByte hexDump_def)

lemma formatPayload_no_throw: "\<not> isl (formatPayload p)"
proof (cases p)
  case (VoltageCurrent voltage current pw)
  have "\<not> isl (toFixed 2 pw)" by (simp add: toFixed_no_throw)
  then obtain s where "toFixed 2 pw = Inr s" by (cases "toFixed 2 pw") simp_all
  with VoltageCurrent show ?thesis
    by (simp add: template_no_throw toFixed_no_throw del: template.simps)
next
  case (Raw payload)
  then show ?thesis
    by (simp add: formatPayload_Raw del: formatPayload.simps)
qed (simp_all add: template_no_throw toFixed_no_throw del: template.simps)

text \<open>
  \<^bold>\<open>C2.\<close> For each of the commands 0x80 to 0x87, a payload shorter than the length the
  command requires (8 bytes for 0x80, 0x83, 0x84 and 0x87, 6 bytes for 0x81, 4 bytes for
  0x82, 0x85 and 0x86) decodes to the failure marker: no record is built, the body of
  the switch returns \<^verbatim>\<open>'Insufficient data'\<close> and so does the function.
\<close>

theorem short_payload_insufficient:
  assumes "(cmd \<in> {0x80, 0x83, 0x84, 0x87} \<and> length payload < 8)
         \<or> (cmd = 0x81 \<and> length payload < 6)
         \<or> (cmd \<in> {0x82, 0x85, 0x86} \<and> length payload < 4)"
  shows "decodePayload cmd payload = Insufficient
       \<and> parseSwitch cmd payload = Inr ''Insufficient data''
       \<and> parseDataValue cmd payload = ''Insufficient data''"
  using assms by (auto simp: decodePayload_def parseDataValue_def parseSwitch_def)

theorem short_payload_insufficient_witness:
  "decodePayload 0x81 [0x50, 0x00, 0x64, 0x00, 0x3C] = Insufficient
   \<and> parseSwitch 0x81 [0x50, 0x00, 0x64, 0x00, 0x3C] = Inr ''Insufficient data''
   \<and> parseDataValue 0x81 [0x50, 0x00, 0x64, 0x00, 0x3C] = ''Insufficient data''"
  using short_payload_insufficient [of "0x81" "[0x50, 0x00, 0x64, 0x00, 0x3C]"]
  by simp

text \<open>
  \<^bold>\<open>C3\<close>, as the claim states it, fails: the length test in front of the switch answers
  \<^verbatim>\<open>'Insufficient data'\<close> for every payload of fewer than two bytes, whatever the
  command code. Here an unknown code 0x99 with the one-byte payload AB.
\<close>

theorem unknown_command_short_counterexample:
  "parseDataValue 0x99 [0xAB] = ''Insufficient data''
   \<and> parseDataValue 0x99 [0xAB] \<noteq> ''Raw: '' @ hexDump [0xAB]"
  by (simp add: parseDataValue_def)

text \<open>
  \<^bold>\<open>C3\<close>, amended. For every command code outside 0x80..0x87, 0x8F and 0xC0, a payload
  of two bytes or more decodes to \<^verbatim>\<open>'Raw: '\<close> followed by the hex dump of its bytes, and
  a payload of fewer than two bytes decodes to \<^verbatim>\<open>'Insufficient data'\<close>; in neither case
  to \<^verbatim>\<open>'Parse error'\<close>.
\<close>

theorem unknown_command_raw:
  assumes "cmd \<notin> {0x80, 0x81, 0x82, 0x83, 0x84, 0x85, 0x86, 0x87, 0x8F, 0xC0}"
  shows "parseDataValue cmd payload
           = (if length payload < 2 then ''Insufficient data'' else ''Raw: '' @ hexDump payload)"
  using assms
  by (simp add: parseDataValue_def parseSwitch_def decodePayload_def formatPayload_Raw
      del: formatPayload.simps)

lemma hexDump_example: "hexDump [0xAB, 0x01, 0xF0] = ''AB 01 F0''"
  by code_simp

theorem unknown_command_raw_witness:
  "(0x99 :: int) \<notin> {0x80, 0x81, 0x82, 0x83, 0x84, 0x85, 0x86, 0x87, 0x8F, 0xC0}
   \<and> parseDataValue 0x99 [0xAB, 0x01, 0xF0] = ''Raw: AB 01 F0''
   \<and> parseDataValue 0x99 [] = ''Insufficient data''"
  using unknown_command_raw [of "0x99" "[0xAB, 0x01, 0xF0]"] unknown_command_raw [of "0x99" "[]"]
  by (simp add: hexDump_example)

text \<open>
  \<^bold>\<open>C9.\<close> The decoder is total and never raises: for every command code and payload
  the body of the \<^verbatim>\<open>try\<close> block returns a string \<open>s\<close> without throwing, so the
  \<^verbatim>\<open>catch\<close> is never entered, and the function returns \<^verbatim>\<open>'Insufficient data'\<close> for a
  payload of fewer than two bytes and \<open>s\<close> otherwise.
\<close>

theorem parseDataValue_total:
  "\<exists>s. parseSwitch cmd payload = Inr s
       \<and> parseDataValue cmd payload = (if length payload < 2 then ''Insufficient data'' else s)"
proof -
  have "\<not> isl (parseSwitch cmd payload)"
    by (simp add: parseSwitch_def formatPayload_no_throw)
  then obtain s where "parseSwitch cmd payload = Inr s"
    by (cases "parseSwitch cmd payload") simp_all
  then show ?thesis
    by (simp add: parseDataValue_def)
qed

subsection \<open>Accumulated energy\<close>

lemma floor_energy: "\<lfloor>4294967297 / 2 :: rat\<rfloor> = 2147483648"
  by (simp add: floor_unique)

lemma radixDigits_energy: "radixDigits 10 2147483648 = ''2147483648''"
  by (simp add: radixDigits.simps digitChar_def)

lemma toFixed_energy: "toFixed (Suc 0) (- 214748364.8) = Inr ''-214748364.8''"
  by (simp add: toFixed_def Let_def floor_energy radixDigits_energy)

lemma toFixed_zero: "toFixed (Suc 0) 0 = Inr ''0.0''"
  by (simp add: toFixed_def Let_def radixDigits.simps digitChar_def)

text \<open>
  \<^bold>\<open>C4\<close> names the unsigned 32-bit value of bytes 0..3 times 0.1 as the charge energy.
  With byte 3 equal to 0x80 the code computes a negative energy, \<open>-214748364.8\<close> kWh,
  where the unsigned reading gives \<open>214748364.8\<close> kWh.
\<close>

theorem accumulated_power_negative:
  "decodePayload 0x87 [0, 0, 0, 0x80, 0, 0, 0, 0] = AccumulatedPower (- 214748364.8) 0
   \<and> parseDataValue 0x87 [0, 0, 0, 0x80, 0, 0, 0, 0] = ''Charge: -214748364.8kWh, Discharge: 0.0kWh''
   \<and> of_int (spec_unsigned_le [0, 0, 0, 0x80, 0, 0, 0, 0] 0 4) * (0.1 :: rat) = 214748364.8"
proof -
  have d: "decodePayload 0x87 [0, 0, 0, 0x80, 0, 0, 0, 0] = AccumulatedPower (- 214748364.8) 0"
    by (subst accumulated_power_decode) (simp_all add: spec_unsigned_le_4)
  show ?thesis
    by (simp add: d parseDataValue_def parseSwitch_def toFixed_energy [simplified] toFixed_zero
        spec_unsigned_le_4)
qed

subsection \<open>Signed fields\<close>

text \<open>
  \<^bold>\<open>C7.\<close> The current of command 0x82 and both temperatures of command 0x84 are the
  two's-complement reading of their raw 16-bit little-endian value \<open>v\<close>, times 0.1:
  \<open>v \<times> 0.1\<close> when \<open>v \<le> 32767\<close> and \<open>(v - 65536) \<times> 0.1\<close> otherwise. The other fields
  of the two records are as the layout gives them. In particular the raw current
  0xFFFF decodes to \<open>-0.1\<close> A.
\<close>

theorem signed_fields_decode:
  "(4 \<le> length p \<longrightarrow>
      decodePayload 0x82 p
        = VoltageCurrent
            (of_int (spec_unsigned_le p 0 2) * 0.1)
            (of_int (spec_signed16 (spec_unsigned_le p 2 2)) * 0.1)
            (of_int (spec_unsigned_le p 0 2) * 0.1
               * \<bar>of_int (spec_signed16 (spec_unsigned_le p 2 2)) * 0.1\<bar> / 1000))
   \<and> (8 \<le> length q \<longrightarrow>
      decodePayload 0x84 q
        = Temperature
            (of_int (spec_signed16 (spec_unsigned_le q 0 2)) * 0.1)
            (Some (uint (q ! 2))) (Some (uint (q ! 3)))
            (of_int (spec_signed16 (spec_unsigned_le q 4 2)) * 0.1)
            (Some (uint (q ! 6))) (Some (uint (q ! 7))))"
proof (intro conjI impI)
  assume l: "4 \<le> length p"
  then have "0 + 1 < length p" "2 + 1 < length p"
    by simp_all
  then have "word16 p 1 0 = spec_unsigned_le p 0 2" "word16 p 3 2 = spec_unsigned_le p 2 2"
    using word16_le [of 0 p] word16_le [of 2 p] by simp_all
  with l show "decodePayload 0x82 p
        = VoltageCurrent
            (of_int (spec_unsigned_le p 0 2) * 0.1)
            (of_int (spec_signed16 (spec_unsigned_le p 2 2)) * 0.1)
            (of_int (spec_unsigned_le p 0 2) * 0.1
               * \<bar>of_int (spec_signed16 (spec_unsigned_le p 2 2)) * 0.1\<bar> / 1000)"
    by (simp add: decodePayload_def signedTenths_spec Let_def)
next
  assume l: "8 \<le> length q"
  then have "0 + 1 < length q" "4 + 1 < length q"
    by simp_all
  then have "word16 q 1 0 = spec_unsigned_le q 0 2" "word16 q 5 4 = spec_unsigned_le q 4 2"
    using word16_le [of 0 q] word16_le [of 4 q] by simp_all
  with l show "decodePayload 0x84 q
        = Temperature
            (of_int (spec_signed16 (spec_unsigned_le q 0 2)) * 0.1)
            (Some (uint (q ! 2))) (Some (uint (q ! 3)))
            (of_int (spec_signed16 (spec_unsigned_le q 4 2)) * 0.1)
            (Some (uint (q ! 6))) (Some (uint (q ! 7)))"
    by (simp add: decodePayload_def signedTenths_spec idx_in_range)
qed

theorem signed_fields_decode_witness:
  "decodePayload 0x82 [0xB9, 0x1F, 0xFF, 0xFF] = VoltageCurrent 812.1 (- 0.1) 0.08121
   \<and> decodePayload 0x84 [0xFF, 0xFF, 0x01, 0x03, 0x00, 0x80, 0x02, 0x05]
       = Temperature (- 0.1) (Some 1) (Some 3) (- 3276.8) (Some 2) (Some 5)"
  using signed_fields_decode [of "[0xB9, 0x1F, 0xFF, 0xFF]"
      "[0xFF, 0xFF, 0x01, 0x03, 0x00, 0x80, 0x02, 0x05]"]
  by (simp add: spec_unsigned_le_2 spec_signed16_def)

section \<open>Properties of the alarm severity\<close>

text \<open>
  \<^bold>\<open>C8.\<close> The severity of a bit position is 3 on
  \<open>{0, 1, 14, 18, ..., 32}\<close>, 2 on \<open>{2, ..., 9}\<close> and 1 everywhere else, bit 17
  included. For the alarm mask with exactly bits 0 and 5 set (first byte 0x21) the
  active bits are 0 and 5 and the largest severity among them is 3.
\<close>

theorem alarm_severity_table:
  "getAlarmSeverity b
     = (if b \<in> {0, 1, 14, 18, 19, 20, 21, 22, 23, 24, 25, 26, 27, 28, 29, 30, 31, 32} then 3
        else if b \<in> {2, 3, 4, 5, 6, 7, 8, 9} then 2
        else 1)
   \<and> getAlarmSeverity 17 = 1
   \<and> alarmBits [0x21, 0, 0, 0, 0, 0, 0, 0] = [0, 5]
   \<and> Max (getAlarmSeverity ` int ` set (alarmBits [0x21, 0, 0, 0, 0, 0, 0, 0])) = 3"
proof -
  have a: "alarmBits [0x21, 0, 0, 0, 0, 0, 0, 0] = [0, 5]"
    by code_simp
  show ?thesis
    by (simp add: a getAlarmSeverity_def)
qed

section \<open>Properties of the debug log store\<close>

subsection \<open>The identifier fields the store extracts\<close>

text \<open>
  The identifiers \<^verbatim>\<open>generateTestData\<close> builds are encoded identifiers with the
  point-to-point flag set and the continuation flag clear, and the fields \<^verbatim>\<open>logCanFrame\<close>
  stores in an entry are those of the decoded identifier.
\<close>

lemma testFrameId_encode:
  "testFrameId cmd dst src
     = encodeIdentifier \<lparr> ptp = True, command = cmd, destinationAddress = dst,
                          sourceAddress = src, cnt = False \<rparr>"
  by (simp add: testFrameId_def encodeIdentifier_def js_or_def js_shl_def toInt32_sint)
    (simp add: toInt32_def)

lemma logCanFrame_fields:
  "isRecording s \<Longrightarrow>
   logCanFrame dir fid payload now s
     = addLogEntry \<lparr> direction = dir, frameId = fid,
                     commandCode = command (decodeIdentifier fid),
                     source = sourceAddress (decodeIdentifier fid),
                     destination = destinationAddress (decodeIdentifier fid),
                     data = payload \<rparr> now s"
  by (simp add: logCanFrame_def decodeIdentifier_def)

subsection \<open>Single calls\<close>

lemma entryId_newEntry: "entryId (newEntry entry n now) = n"
  by (simp add: newEntry_def)

lemma slice_zero: "slice xs 0 = xs"
  by (simp add: slice_def)

lemma slice_last:
  assumes "1 \<le> m"
  shows "slice xs (- m) = drop (length xs - nat m) xs"
proof -
  have "nat (max (int (length xs) - m) 0) = length xs - nat m"
    using assms by (simp add: max_def nat_diff_distrib') 
  with assms show ?thesis
    by (simp add: slice_def)
qed

lemma slice_is_drop: "\<exists>k. slice xs start = drop k xs"
  by (auto simp: slice_def Let_def)

lemma addLogEntry_idle: "\<not> isRecording s \<Longrightarrow> addLogEntry entry now s = s"
  by (simp add: addLogEntry_def)

lemma addLogEntry_fields:
  "isRecording (addLogEntry entry now s) = isRecording s"
  "maxLogs (addLogEntry entry now s) = maxLogs s"
  by (simp_all add: addLogEntry_def)

lemma addLogEntry_recording:
  assumes "isRecording s"
  shows "logs (addLogEntry entry now s)
           = slice (logs s @ [newEntry entry (logIdCounter s) now]) (- maxLogs s)"
    and "logIdCounter (addLogEntry entry now s) = increment (logIdCounter s)"
  using assms by (simp_all add: addLogEntry_def)

lemma logCanFrame_as_add:
  "\<exists>entry. logCanFrame dir fid payload now s = addLogEntry entry now s"
  by (cases "isRecording s") (auto simp: logCanFrame_def addLogEntry_idle)

lemma run_Nil: "run [] s = s"
  by (simp add: run_def)

lemma run_Cons: "run (op # ops) s = run ops (applyOp op s)"
  by (simp add: run_def)

lemma run_snoc: "run (ops @ [op]) s = applyOp op (run ops s)"
  by (simp add: run_def)

lemma increment_bound: "increment n < 2 ^ 53 \<Longrightarrow> n < 2 ^ 53 \<and> increment n = n + 1"
  by (simp add: increment_def split: if_splits)

lemma ids_ok_add:
  assumes inv: "logIdCounter s < 2 ^ 53 \<longrightarrow> ids_ok s"
    and c: "logIdCounter (addLogEntry entry now s) < 2 ^ 53"
  shows "ids_ok (addLogEntry entry now s)"
proof (cases "isRecording s")
  case False
  with inv c show ?thesis by (simp add: addLogEntry_idle)
next
  case True
  let ?c = "logIdCounter s"
  from c True have b: "?c < 2 ^ 53" and i: "increment ?c = ?c + 1"
    using increment_bound [of ?c] by (simp_all add: addLogEntry_recording)
  with inv have ok: "ids_ok s" by simp
  obtain k where k: "logs (addLogEntry entry now s) = drop k (logs s @ [newEntry entry ?c now])"
    using slice_is_drop [of "logs s @ [newEntry entry ?c now]" "- maxLogs s"] True
    by (auto simp: addLogEntry_recording)
  have all: "sorted_wrt (<) (map entryId (logs s @ [newEntry entry ?c now]))"
    using ok by (auto simp: ids_ok_def sorted_wrt_append entryId_newEntry list_all_iff)
  have lt: "list_all (\<lambda>e. entryId e < ?c + 1) (logs s @ [newEntry entry ?c now])"
    using ok by (auto simp: ids_ok_def entryId_newEntry list_all_iff)
  have "sorted_wrt (<) (map entryId (drop k (logs s @ [newEntry entry ?c now])))"
    using all by (simp only: drop_map [symmetric] sorted_wrt_drop)
  moreover have "list_all (\<lambda>e. entryId e < ?c + 1) (drop k (logs s @ [newEntry entry ?c now]))"
    using lt by (auto simp: list_all_iff dest: in_set_dropD)
  ultimately show ?thesis
    using True i by (simp add: ids_ok_def k addLogEntry_recording)
qed

lemma ids_ok_step:
  assumes inv: "logIdCounter s < 2 ^ 53 \<longrightarrow> ids_ok s"
  shows "logIdCounter (applyOp op s) < 2 ^ 53 \<longrightarrow> ids_ok (applyOp op s)"
proof (cases op)
  case (AddLogEntry entry now)
  with inv show ?thesis by (auto intro: ids_ok_add)
next
  case (LogCanFrame dir fid payload now)
  obtain entry where "logCanFrame dir fid payload now s = addLogEntry entry now s"
    using logCanFrame_as_add by blast
  with LogCanFrame inv show ?thesis by (auto intro: ids_ok_add)
qed (use inv in \<open>simp_all add: ids_ok_def startRecording_def stopRecording_def clearLogs_def setMaxLogs_def\<close>)

lemma ids_ok_run:
  "logIdCounter (run ops initialStore) < 2 ^ 53 \<longrightarrow> ids_ok (run ops initialStore)"
proof (induction ops rule: rev_induct)
  case Nil
  show ?case by (simp add: run_Nil ids_ok_def initialStore_def)
next
  case (snoc op ops)
  show ?case
    unfolding run_snoc by (rule ids_ok_step) (rule snoc)
qed

lemmas store_simps = run_Nil run_Cons applyOp.simps startRecording_def stopRecording_def
  clearLogs_def setMaxLogs_def addLogEntry_def initialStore_def slice_def increment_def
  entryId_newEntry Let_def

subsection \<open>Sequence ids\<close>

text \<open>
  \<^bold>\<open>C5\<close>, as the claim states it, fails: \<^verbatim>\<open>startRecording\<close> and \<^verbatim>\<open>clearLogs\<close> set the
  counter back to 0, so the first entry after either of them receives the id 0 again,
  which an earlier entry of the same process already had.
\<close>

theorem log_id_reuse_counterexample:
  "map entryId (logs (run [StartRecording, AddLogEntry sampleEntry 0] initialStore)) = [0]
   \<and> map entryId (logs (run [StartRecording, AddLogEntry sampleEntry 0, StartRecording,
         AddLogEntry sampleEntry 1] initialStore)) = [0]
   \<and> map entryId (logs (run [StartRecording, AddLogEntry sampleEntry 0, ClearLogs,
         AddLogEntry sampleEntry 1] initialStore)) = [0]"
  by (simp add: store_simps)

text \<open>The ids in the log itself: strictly increasing and below the counter, in every reachable state.\<close>

lemma log_ids_in_log:
  assumes "logIdCounter (run ops initialStore) < 2 ^ 53"
  shows "sorted_wrt (<) (map entryId (logs (run ops initialStore)))"
    and "list_all (\<lambda>e. entryId e < logIdCounter (run ops initialStore)) (logs (run ops initialStore))"
  using assms ids_ok_run [of ops] by (simp_all add: ids_ok_def)

text \<open>A call changes the log only by appending the entry it built and cutting to the maximum.\<close>

lemma applyOp_logs:
  "logs (applyOp op s)
     = (if op \<in> {StartRecording, ClearLogs} then []
        else if appended op s = [] then logs s
        else slice (logs s @ appended op s) (- maxLogs s))"
  by (cases op)
    (simp_all add: startRecording_def stopRecording_def clearLogs_def setMaxLogs_def
      addLogEntry_def logCanFrame_def)

lemma applyOp_ids:
  assumes "op \<noteq> StartRecording" "op \<noteq> ClearLogs" "logIdCounter (applyOp op s) < 2 ^ 53"
  shows "map entryId (appended op s) = [logIdCounter s..<logIdCounter (applyOp op s)]
       \<and> logIdCounter s \<le> logIdCounter (applyOp op s)"
proof (cases "appended op s = []")
  case True
  with assms(1,2) have "logIdCounter (applyOp op s) = logIdCounter s"
    by (cases op)
      (simp_all add: stopRecording_def setMaxLogs_def addLogEntry_def logCanFrame_def
        split: if_splits)
  with True show ?thesis by simp
next
  case False
  then have c: "logIdCounter (applyOp op s) = increment (logIdCounter s)"
    and e: "map entryId (appended op s) = [logIdCounter s]"
    by (cases op; simp add: addLogEntry_def logCanFrame_def entryId_newEntry split: if_splits)+
  from assms(3) have "increment (logIdCounter s) = logIdCounter s + 1"
    using increment_bound [of "logIdCounter s"] by (simp add: c)
  with c e show ?thesis by simp
qed

lemma counter_mono:
  assumes "StartRecording \<notin> set ops" "ClearLogs \<notin> set ops"
  shows "logIdCounter s \<le> logIdCounter (run ops s)"
  using assms
proof (induction ops arbitrary: s)
  case Nil
  show ?case by (simp add: run_Nil)
next
  case (Cons op ops)
  have "logIdCounter s \<le> logIdCounter (applyOp op s)"
    using Cons.prems
    by (cases op)
      (simp_all add: stopRecording_def setMaxLogs_def addLogEntry_def logCanFrame_def
        increment_def)
  also have "\<dots> \<le> logIdCounter (run ops (applyOp op s))"
    using Cons by simp
  finally show ?case by (simp add: run_Cons)
qed

lemma history_ids:
  assumes "StartRecording \<notin> set ops" "ClearLogs \<notin> set ops" "logIdCounter (run ops s) < 2 ^ 53"
  shows "map entryId (history ops s) = [logIdCounter s..<logIdCounter (run ops s)]"
  using assms
proof (induction ops arbitrary: s)
  case Nil
  show ?case by (simp add: run_Nil)
next
  case (Cons op ops)
  let ?s = "applyOp op s"
  have r: "run (op # ops) s = run ops ?s" by (simp add: run_Cons)
  from Cons.prems have no: "op \<noteq> StartRecording" "op \<noteq> ClearLogs"
    "StartRecording \<notin> set ops" "ClearLogs \<notin> set ops"
    by auto
  have le: "logIdCounter ?s \<le> logIdCounter (run ops ?s)"
    using no by (intro counter_mono)
  with Cons.prems(3) have b: "logIdCounter ?s < 2 ^ 53" by (simp add: r)
  have 1: "map entryId (appended op s) = [logIdCounter s..<logIdCounter ?s]"
    and 2: "logIdCounter s \<le> logIdCounter ?s"
    using applyOp_ids [OF no(1,2) b] by simp_all
  have 3: "map entryId (history ops ?s) = [logIdCounter ?s..<logIdCounter (run ops ?s)]"
    using Cons.IH [of ?s] no Cons.prems(3) by (simp add: r)
  have "[logIdCounter s..<logIdCounter ?s] @ [logIdCounter ?s..<logIdCounter (run ops ?s)]
      = [logIdCounter s..<logIdCounter (run ops ?s)]"
    using 2 le by (metis le_Suc_ex upt_add_eq_append)
  with 1 3 show ?case by (simp add: r)
qed

text \<open>
  \<^bold>\<open>C5\<close>, amended. Take a state right after the last reset: the initial state of the
  process, or the state \<^verbatim>\<open>startRecording\<close> or \<^verbatim>\<open>clearLogs\<close> leaves. Over every sequence of
  the other calls from there (\<^verbatim>\<open>stopRecording\<close>, \<^verbatim>\<open>setMaxLogs\<close>, \<^verbatim>\<open>addLogEntry\<close>,
  \<^verbatim>\<open>logCanFrame\<close>), while the counter is below \<open>2^53\<close>, the ids given to the appended
  entries are, in the order of the calls, 0, 1, 2 and so on up to the counter. So each
  newly appended entry receives an id strictly greater than every id assigned before it
  since the reset, evicted entries included, and no id is assigned twice. The last
  conjunct ties the entries counted to the log of the store. Beyond \<open>2^53\<close> the
  counter of the source no longer grows (\<open>counter_saturates\<close>).
\<close>

theorem session_ids_increasing:
  assumes "s0 \<in> {initialStore, startRecording s, clearLogs s}"
    and "StartRecording \<notin> set ops" "ClearLogs \<notin> set ops"
    and "logIdCounter (run ops s0) < 2 ^ 53"
  shows "map entryId (history ops s0) = [0..<logIdCounter (run ops s0)]
       \<and> sorted_wrt (<) (map entryId (history ops s0))
       \<and> distinct (map entryId (history ops s0))
       \<and> logs (applyOp op st)
           = (if op \<in> {StartRecording, ClearLogs} then []
              else if appended op st = [] then logs st
              else slice (logs st @ appended op st) (- maxLogs st))"
proof -
  from assms(1) have "logIdCounter s0 = 0"
    by (auto simp: initialStore_def startRecording_def clearLogs_def)
  with history_ids [OF assms(2-4)]
  have h: "map entryId (history ops s0) = [0..<logIdCounter (run ops s0)]"
    by simp
  have "sorted_wrt (<) [0..<logIdCounter (run ops s0)]"
    by (simp add: sorted_wrt_upt)
  moreover have "distinct [0..<logIdCounter (run ops s0)]"
    by simp
  ultimately show ?thesis
    by (simp only: h applyOp_logs)
qed

theorem session_ids_increasing_witness:
  "startRecording initialStore \<in> {initialStore, startRecording initialStore, clearLogs initialStore}
   \<and> logIdCounter (run [AddLogEntry sampleEntry 0, SetMaxLogs 1, AddLogEntry sampleEntry 1,
         AddLogEntry sampleEntry 2, StopRecording, AddLogEntry sampleEntry 3]
         (startRecording initialStore)) = 3
   \<and> map entryId (history [AddLogEntry sampleEntry 0, SetMaxLogs 1, AddLogEntry sampleEntry 1,
         AddLogEntry sampleEntry 2, StopRecording, AddLogEntry sampleEntry 3]
         (startRecording initialStore)) = [0, 1, 2]
   \<and> map entryId (logs (run [AddLogEntry sampleEntry 0, SetMaxLogs 1, AddLogEntry sampleEntry 1,
         AddLogEntry sampleEntry 2, StopRecording, AddLogEntry sampleEntry 3]
         (startRecording initialStore))) = [2]
   \<and> sorted_wrt (<) (map entryId (history [AddLogEntry sampleEntry 0, SetMaxLogs 1,
         AddLogEntry sampleEntry 1, AddLogEntry sampleEntry 2, StopRecording,
         AddLogEntry sampleEntry 3] (startRecording initialStore)))
   \<and> distinct (map entryId (history [AddLogEntry sampleEntry 0, SetMaxLogs 1,
         AddLogEntry sampleEntry 1, AddLogEntry sampleEntry 2, StopRecording,
         AddLogEntry sampleEntry 3] (startRecording initialStore)))"
  using session_ids_increasing [of "startRecording initialStore" initialStore
      "[AddLogEntry sampleEntry 0, SetMaxLogs 1, AddLogEntry sampleEntry 1,
        AddLogEntry sampleEntry 2, StopRecording, AddLogEntry sampleEntry 3]"]
  by (simp add: store_simps)

subsection \<open>Capacity\<close>

lemma appendAll_Nil: "appendAll [] s = s"
  by (simp add: appendAll_def run_Nil)

lemma appendAll_snoc: "appendAll (xs @ [(entry, now)]) s = addLogEntry entry now (appendAll xs s)"
  by (simp add: appendAll_def run_snoc)

lemma appendAll_fields:
  "isRecording (appendAll xs s) = isRecording s"
  "maxLogs (appendAll xs s) = maxLogs s"
  by (induction xs rule: rev_induct; simp add: appendAll_Nil appendAll_snoc addLogEntry_fields split_paired_all)+

lemma created_snoc: "created (xs @ [(entry, now)]) = created xs @ [newEntry entry (length xs) now]"
  by (simp add: created_def enumerate_append_eq)

lemma length_created: "length (created xs) = length xs"
  by (simp add: created_def)

lemma unbounded_growth:
  assumes "isRecording s" "maxLogs s = 0"
  shows "length (logs (appendAll xs s)) = length (logs s) + length xs"
proof (induction xs rule: rev_induct)
  case Nil
  show ?case by (simp add: appendAll_Nil)
next
  case (snoc x xs)
  obtain entry now where x: "x = (entry, now)" by (cases x)
  from snoc assms show ?case
    by (simp add: x appendAll_snoc addLogEntry_recording appendAll_fields slice_zero)
qed

lemma fifo:
  assumes "isRecording s" "1 \<le> maxLogs s" "logs s = []" "logIdCounter s = 0"
    and "length xs \<le> 2 ^ 53"
  shows "logs (appendAll xs s) = drop (length xs - nat (maxLogs s)) (created xs)
       \<and> logIdCounter (appendAll xs s) = length xs"
  using assms(5)
proof (induction xs rule: rev_induct)
  case Nil
  from assms show ?case by (simp add: appendAll_Nil created_def)
next
  case (snoc x xs)
  obtain entry now where x: "x = (entry, now)" by (cases x)
  let ?s = "appendAll xs s" and ?m = "nat (maxLogs s)" and ?n = "length xs"
  from snoc have ih: "logs ?s = drop (?n - ?m) (created xs)" "logIdCounter ?s = ?n"
    and n: "?n < 2 ^ 53"
    by simp_all
  have rec: "isRecording ?s" and mx: "maxLogs ?s = maxLogs s"
    using assms by (simp_all add: appendAll_fields)
  have m: "1 \<le> ?m" using assms by simp
  have "logs (appendAll (xs @ [x]) s)
      = drop (length (drop (?n - ?m) (created xs) @ [newEntry entry ?n now]) - ?m)
          (drop (?n - ?m) (created xs) @ [newEntry entry ?n now])"
    using rec assms(2) by (simp add: x appendAll_snoc addLogEntry_recording mx ih slice_last)
  also have "drop (?n - ?m) (created xs) @ [newEntry entry ?n now]
      = drop (?n - ?m) (created (xs @ [x]))"
    by (simp add: x created_snoc length_created)
  also have "drop (length (drop (?n - ?m) (created (xs @ [x]))) - ?m)
        (drop (?n - ?m) (created (xs @ [x])))
      = drop (length (xs @ [x]) - ?m) (created (xs @ [x]))"
    using m by (simp add: length_created) (rule arg_cong [where f = "\<lambda>k. drop k _"], arith)
  finally have "logs (appendAll (xs @ [x]) s) = drop (length (xs @ [x]) - ?m) (created (xs @ [x]))" .
  moreover have "logIdCounter (appendAll (xs @ [x]) s) = length (xs @ [x])"
    using rec n by (simp add: x appendAll_snoc addLogEntry_recording ih increment_def)
  ultimately show ?case by simp
qed

lemma fifo_1001:
  assumes "length xs = 1001"
  shows "logs (appendAll xs (startRecording initialStore)) = tl (created xs)"
    and "map entryId (logs (appendAll xs (startRecording initialStore))) = [1..<1001]"
proof -
  have "logs (appendAll xs (startRecording initialStore))
      = drop (length xs - nat (maxLogs (startRecording initialStore))) (created xs)"
    using assms by (intro fifo [THEN conjunct1]) (simp_all add: startRecording_def initialStore_def)
  with assms show 1: "logs (appendAll xs (startRecording initialStore)) = tl (created xs)"
    by (simp add: startRecording_def initialStore_def drop_Suc)
  have "map entryId (created xs) = [0..<length xs]"
    by (simp add: created_def enumerate_eq_zip entryId_newEntry split_def zip_map_fst_snd map_fst_zip cong: map_cong)
  with assms show "map entryId (logs (appendAll xs (startRecording initialStore))) = [1..<1001]"
    by (simp add: 1 map_tl upt_conv_Cons [of 0])
qed

text \<open>
  The limit of the counter: with the counter at \<open>2^53\<close>, which \<open>2^53\<close> appends after
  \<^verbatim>\<open>startRecording\<close> reach, the next two entries both receive the id \<open>2^53\<close>.
\<close>

lemma counter_saturates:
  assumes "isRecording s" "logIdCounter s = 2 ^ 53"
  shows "map entryId (history [AddLogEntry entry now, AddLogEntry entry' now'] s) = [2 ^ 53, 2 ^ 53]"
  using assms by (simp add: addLogEntry_def increment_def entryId_newEntry)

lemma counter_reaches_saturation:
  assumes "length xs = 2 ^ 53"
  shows "isRecording (appendAll xs (startRecording initialStore))"
    and "logIdCounter (appendAll xs (startRecording initialStore)) = 2 ^ 53"
proof -
  show "isRecording (appendAll xs (startRecording initialStore))"
    by (simp add: appendAll_fields startRecording_def)
  have "logIdCounter (appendAll xs (startRecording initialStore)) = length xs"
    using assms by (intro fifo [THEN conjunct2]) (simp_all add: startRecording_def initialStore_def)
  with assms show "logIdCounter (appendAll xs (startRecording initialStore)) = 2 ^ 53"
    by simp
qed

text \<open>
  \<^bold>\<open>C6\<close> says the log never holds more entries than the configured maximum. With the
  maximum set to 0 the store keeps every entry: \<^verbatim>\<open>slice(-0)\<close> is \<^verbatim>\<open>slice(0)\<close>, the whole
  array. After two appends the log holds two entries, above the maximum of 0. For every
  maximum of 1 or more the log is the first-in, first-out buffer of the claim
  (\<open>fifo\<close>, \<open>fifo_1001\<close>).
\<close>

theorem max_zero_not_capped:
  "maxLogs (run [SetMaxLogs 0, StartRecording, AddLogEntry sampleEntry 0,
       AddLogEntry sampleEntry 1] initialStore) = 0
   \<and> length (logs (run [SetMaxLogs 0, StartRecording, AddLogEntry sampleEntry 0,
       AddLogEntry sampleEntry 1] initialStore)) = 2
   \<and> map entryId (logs (run [SetMaxLogs 0, StartRecording, AddLogEntry sampleEntry 0,
       AddLogEntry sampleEntry 1] initialStore)) = [0, 1]"
  by (simp add: store_simps)

text \<open>
  \<^bold>\<open>C10.\<close> While recording, with the maximum set to 0 an append adds the new entry and
  evicts nothing, so the length grows by one with each call and by \<open>n\<close> over \<open>n\<close> calls;
  with a maximum of 1 or more the length after an append is the minimum of the previous
  length plus one and the maximum.
\<close>

theorem addLogEntry_length:
  assumes "isRecording s"
  shows "(maxLogs s = 0 \<longrightarrow>
            logs (addLogEntry entry now s) = logs s @ [newEntry entry (logIdCounter s) now]
          \<and> length (logs (addLogEntry entry now s)) = length (logs s) + 1
          \<and> length (logs (appendAll xs s)) = length (logs s) + length xs)
       \<and> (1 \<le> maxLogs s \<longrightarrow>
            length (logs (addLogEntry entry now s)) = min (length (logs s) + 1) (nat (maxLogs s)))"
  using assms
  by (auto simp: addLogEntry_recording slice_zero slice_last unbounded_growth)

theorem addLogEntry_length_witness:
  "isRecording (run [SetMaxLogs 0, StartRecording] initialStore)
   \<and> maxLogs (run [SetMaxLogs 0, StartRecording] initialStore) = 0
   \<and> length (logs (addLogEntry sampleEntry 5 (run [SetMaxLogs 0, StartRecording] initialStore))) = 1
   \<and> length (logs (appendAll [(sampleEntry, 1), (sampleEntry, 2), (sampleEntry, 3)]
         (run [SetMaxLogs 0, StartRecording] initialStore))) = 3
   \<and> isRecording (run [SetMaxLogs 2, StartRecording, AddLogEntry sampleEntry 0,
         AddLogEntry sampleEntry 1] initialStore)
   \<and> maxLogs (run [SetMaxLogs 2, StartRecording, AddLogEntry sampleEntry 0,
         AddLogEntry sampleEntry 1] initialStore) = 2
   \<and> length (logs (run [SetMaxLogs 2, StartRecording, AddLogEntry sampleEntry 0,
         AddLogEntry sampleEntry 1] initialStore)) = 2
   \<and> length (logs (addLogEntry sampleEntry 5 (run [SetMaxLogs 2, StartRecording,
         AddLogEntry sampleEntry 0, AddLogEntry sampleEntry 1] initialStore))) = 2"
  using addLogEntry_length [of "run [SetMaxLogs 0, StartRecording] initialStore" sampleEntry 5
      "[(sampleEntry, 1), (sampleEntry, 2), (sampleEntry, 3)]"]
    addLogEntry_length [of "run [SetMaxLogs 2, StartRecording, AddLogEntry sampleEntry 0,
      AddLogEntry sampleEntry 1] initialStore" sampleEntry 5 "[]"]
  by (simp add: store_simps)

end
